theory Spec2Isabelle
  imports Main
begin

section \<open>Path handling (the os.path functions the converter calls)\<close>

text \<open>
  The converter manipulates paths with \<^verbatim>\<open>os.path.split\<close>, \<^verbatim>\<open>os.path.splitext\<close> and
  \<^verbatim>\<open>os.path.join\<close>. They are modelled with the POSIX separator \<^verbatim>\<open>/\<close>, on strings as
  character lists.
\<close>

type_synonym path = string

definition sep :: char where
  "sep = CHR ''/''"

definition extsep :: char where
  "extsep = CHR ''.''"

text \<open>\<^verbatim>\<open>s.rfind(c)\<close>: the highest index of \<open>c\<close> in \<open>s\<close>, or \<open>-1\<close>.\<close>

definition rfind :: "char \<Rightarrow> string \<Rightarrow> int" where
  "rfind c s =
     (if c \<in> set s
      then int (length s) - 1 - int (length (takeWhile (\<lambda>x. x \<noteq> c) (rev s)))
      else - 1)"

text \<open>\<^verbatim>\<open>s.rstrip(c)\<close>, \<^verbatim>\<open>s.startswith(t)\<close>, \<^verbatim>\<open>s.endswith(t)\<close> and \<^verbatim>\<open>s.lower()\<close>
  (the last on ASCII letters).\<close>

definition rstrip :: "char \<Rightarrow> string \<Rightarrow> string" where
  "rstrip c s = rev (dropWhile (\<lambda>x. x = c) (rev s))"

definition startswith :: "string \<Rightarrow> string \<Rightarrow> bool" where
  "startswith s t = (take (length t) s = t)"

definition endswith :: "string \<Rightarrow> string \<Rightarrow> bool" where
  "endswith s t = (length t \<le> length s \<and> drop (length s - length t) s = t)"



text \<open>
  \<^verbatim>\<open>
  def split(p):
      i = p.rfind(sep) + 1
      head, tail = p[:i], p[i:]
      if head and head != sep*len(head):
          head = head.rstrip(sep)
      return head, tail
  \<close>
\<close>

definition split_path :: "path \<Rightarrow> path \<times> string" where
  "split_path p =
     (let i = nat (rfind sep p + 1);
          head = take i p;
          tail = drop i p
      in (if head \<noteq> [] \<and> head \<noteq> replicate (length head) sep
          then rstrip sep head else head,
          tail))"

text \<open>
  \<^verbatim>\<open>
  def splitext(p):
      sepIndex = p.rfind(sep)
      dotIndex = p.rfind(extsep)
      if dotIndex > sepIndex:
          filenameIndex = sepIndex + 1
          while filenameIndex < dotIndex:
              if p[filenameIndex:filenameIndex+1] != extsep:
                  return p[:dotIndex], p[dotIndex:]
              filenameIndex += 1
      return p, p[:0]
  \<close>
  The loop looks for a character other than the dot in \<^verbatim>\<open>p[sepIndex+1:dotIndex]\<close>.
\<close>

definition splitext :: "path \<Rightarrow> string \<times> string" where
  "splitext p =
     (let sepIndex = rfind sep p;
          dotIndex = rfind extsep p
      in if dotIndex > sepIndex \<and>
            list_ex (\<lambda>c. c \<noteq> extsep)
              (drop (nat (sepIndex + 1)) (take (nat dotIndex) p))
         then (take (nat dotIndex) p, drop (nat dotIndex) p)
         else (p, []))"

text \<open>
  \<^verbatim>\<open>
  def join(a, b):
      if b.startswith(sep):           path = b
      elif not a or a.endswith(sep):  path = a + b
      else:                           path = a + sep + b
      return path
  \<close>
\<close>

definition join :: "path \<Rightarrow> string \<Rightarrow> path" where
  "join a b =
     (if startswith b [sep] then b
      else if a = [] \<or> endswith a [sep] then a @ b
      else a @ [sep] @ b)"

section \<open>Images, files and the library calls\<close>

text \<open>
  Pixel data is not computed on: an image is the term of library calls that produced it,
  from the raster of a decoded frame.
\<close>

datatype image =
    Raster nat
      \<comment> \<open>the decoded raster of a source frame, by number\<close>
  | ConvertRGB image
      \<comment> \<open>\<^verbatim>\<open>im.convert("RGB")\<close>\<close>
  | QuantizeMedianCut nat image
      \<comment> \<open>\<^verbatim>\<open>im.quantize(palette=None, colors=n, method=Image.MEDIANCUT)\<close>\<close>
  | QuantizeTo image image
      \<comment> \<open>\<^verbatim>\<open>im.quantize(palette=pal)\<close>, the palette image first\<close>

text \<open>A frame of an opened image: its pixels and the \<^verbatim>\<open>"duration"\<close> entry of its
  \<^verbatim>\<open>info\<close> dictionary, when there is one.\<close>

record frame =
  pixels :: image
  duration :: "int option"

text \<open>What a file holds: bytes the program did not write (by number), what one of the
  three \<^verbatim>\<open>save\<close> calls of the converter wrote, with the arguments of the call, or
  what is left of a file by a \<^verbatim>\<open>save\<close> that raised while writing it.\<close>

datatype content =
    Bytes nat
  | is_jpeg: JPEG_file image int int bool
      \<comment> \<open>\<^verbatim>\<open>im.save(path, format="JPEG", quality=q, subsampling=s, optimize=b)\<close>\<close>
  | GIF_file image
      \<comment> \<open>\<^verbatim>\<open>im.save(path, format="GIF")\<close>\<close>
  | GIF_all image "image list" int "int list" int bool
      \<comment> \<open>\<^verbatim>\<open>im.save(path, save_all=True, append_images=l, loop=n, duration=d, disposal=k, optimize=b)\<close>
         on a path ending in \<^verbatim>\<open>.gif\<close>\<close>
  | Partial
      \<comment> \<open>a file cut short: the target of a \<^verbatim>\<open>save\<close> that raised after opening it\<close>

text \<open>
  \<^verbatim>\<open>save\<close> opens its target for writing, which empties a file that was there, and then
  encodes into it. So a \<^verbatim>\<open>save\<close> can raise in two ways: before the target is opened,
  and the file system is as it was; or after, and the target is left cut short.
\<close>

datatype save_failure =
    Refused string
  | Broken string

type_synonym filesystem = "path \<rightharpoonup> content"

text \<open>
  The image library and the operating system are outside the program. What they do is a
  parameter: which frames the decoder finds in a file (the first frame, on which an opened
  image stands, and the frames after it), and which calls raise. An exception is of class
  \<^verbatim>\<open>Exception\<close>, the class the converter catches, and is kept as its message
  \<^verbatim>\<open>str(e)\<close>. Opening, converting, quantizing and removing change nothing when
  they raise; for \<^verbatim>\<open>save\<close> the parameter says in which of its two ways it raises.
\<close>

record env =
  decode :: "content \<Rightarrow> string + frame \<times> frame list"
  convert_fails :: "image \<Rightarrow> string option"
  quantize_fails :: "image \<Rightarrow> string option"
  save_fails :: "path \<Rightarrow> save_failure option"
  remove_fails :: "path \<Rightarrow> string option"

definition image_open :: "env \<Rightarrow> filesystem \<Rightarrow> path \<Rightarrow> string + frame \<times> frame list" where
  "image_open e fs p =
     (case fs p of
        None \<Rightarrow> Inl (''No such file or directory: '' @ p)
      | Some c \<Rightarrow> decode e c)"

definition convert_rgb :: "env \<Rightarrow> image \<Rightarrow> string + image" where
  "convert_rgb e im =
     (case convert_fails e im of Some msg \<Rightarrow> Inl msg | None \<Rightarrow> Inr (ConvertRGB im))"

definition quantize_mediancut :: "env \<Rightarrow> nat \<Rightarrow> image \<Rightarrow> string + image" where
  "quantize_mediancut e colors im =
     (case quantize_fails e im of
        Some msg \<Rightarrow> Inl msg
      | None \<Rightarrow> Inr (QuantizeMedianCut colors im))"

definition quantize_to :: "env \<Rightarrow> image \<Rightarrow> image \<Rightarrow> string + image" where
  "quantize_to e pal im =
     (case quantize_fails e im of Some msg \<Rightarrow> Inl msg | None \<Rightarrow> Inr (QuantizeTo pal im))"

text \<open>A failure comes with the file system it leaves.\<close>

definition save ::
  "env \<Rightarrow> filesystem \<Rightarrow> path \<Rightarrow> content \<Rightarrow> string \<times> filesystem + filesystem" where
  "save e fs p c =
     (case save_fails e p of
        None \<Rightarrow> Inr (fs(p \<mapsto> c))
      | Some (Refused msg) \<Rightarrow> Inl (msg, fs)
      | Some (Broken msg) \<Rightarrow> Inl (msg, fs(p \<mapsto> Partial)))"

definition os_remove :: "env \<Rightarrow> filesystem \<Rightarrow> path \<Rightarrow> string + filesystem" where
  "os_remove e fs p =
     (case fs p of
        None \<Rightarrow> Inl (''No such file or directory: '' @ p)
      | Some c \<Rightarrow>
          (case remove_fails e p of Some msg \<Rightarrow> Inl msg | None \<Rightarrow> Inr (fs(p := None))))"

section \<open>The converter: convert_single_webp\<close>

text \<open>The JPEG branch (lines 35 to 46): the opened image stands on its first frame.\<close>

definition jpeg_branch ::
  "env \<Rightarrow> filesystem \<Rightarrow> path \<Rightarrow> path \<Rightarrow> string \<Rightarrow> string \<times> filesystem + filesystem"
where
  "jpeg_branch e fs webp_path dirname base_name =
     (let out_filename = base_name @ ''.jpg'';
          out_path = join dirname out_filename
      in case image_open e fs webp_path of
           Inl msg \<Rightarrow> Inl (msg, fs)
         | Inr (img, rest) \<Rightarrow>
             (case convert_rgb e (pixels img) of
                Inl msg \<Rightarrow> Inl (msg, fs)
              | Inr img_rgb \<Rightarrow> save e fs out_path (JPEG_file img_rgb 100 0 True)))"

text \<open>The loop over \<^verbatim>\<open>ImageSequence.Iterator(img)\<close> (lines 65 to 69), with the two lists
  it appends to.\<close>

fun gif_loop ::
  "env \<Rightarrow> image \<Rightarrow> frame list \<Rightarrow> image list \<Rightarrow> int list \<Rightarrow> string + image list \<times> int list"
where
  "gif_loop e paletted_first [] frames_rgb durations = Inr (frames_rgb, durations)"
| "gif_loop e paletted_first (frame # rest) frames_rgb durations =
     (case convert_rgb e (pixels frame) of
        Inl msg \<Rightarrow> Inl msg
      | Inr f_rgb \<Rightarrow>
          (case quantize_to e paletted_first f_rgb of
             Inl msg \<Rightarrow> Inl msg
           | Inr f_p \<Rightarrow>
               gif_loop e paletted_first rest (frames_rgb @ [f_p])
                 (durations @ [case duration frame of None \<Rightarrow> 100 | Some d \<Rightarrow> d])))"

text \<open>Lines 52 to 69: the palette of the first frame, then the loop over every frame.\<close>

definition gif_frames ::
  "env \<Rightarrow> frame \<Rightarrow> frame list \<Rightarrow> string + image \<times> image list \<times> int list" where
  "gif_frames e img rest =
     (case convert_rgb e (pixels img) of
        Inl msg \<Rightarrow> Inl msg
      | Inr first_rgb \<Rightarrow>
          (case quantize_mediancut e 256 first_rgb of
             Inl msg \<Rightarrow> Inl msg
           | Inr paletted_first \<Rightarrow>
               (case gif_loop e paletted_first (img # rest) [] [] of
                  Inl msg \<Rightarrow> Inl msg
                | Inr (frames_rgb, durations) \<Rightarrow> Inr (paletted_first, frames_rgb, durations))))"

text \<open>The GIF branch (lines 49 to 82).\<close>

definition gif_branch ::
  "env \<Rightarrow> filesystem \<Rightarrow> path \<Rightarrow> path \<Rightarrow> string \<Rightarrow> string \<times> filesystem + filesystem"
where
  "gif_branch e fs webp_path dirname base_name =
     (let out_filename = base_name @ ''.gif'';
          out_path = join dirname out_filename
      in case image_open e fs webp_path of
           Inl msg \<Rightarrow> Inl (msg, fs)
         | Inr (img, rest) \<Rightarrow>
             (case gif_frames e img rest of
                Inl msg \<Rightarrow> Inl (msg, fs)
              | Inr (paletted_first, frames_rgb, durations) \<Rightarrow>
                  if length frames_rgb \<le> 1
                  then save e fs out_path (GIF_file paletted_first)
                  else save e fs out_path
                         (GIF_all (frames_rgb ! 0) (drop 1 frames_rgb) 0 durations 2 False)))"

text \<open>The conversion itself (lines 31 to 82): the statements of the \<^verbatim>\<open>try\<close> block before
  the deletion.\<close>

definition encode ::
  "env \<Rightarrow> filesystem \<Rightarrow> path \<Rightarrow> string \<Rightarrow> string \<times> filesystem + filesystem" where
  "encode e fs webp_path output_format =
     (let (dirname, filename) = split_path webp_path;
          (base_name, ext) = splitext filename
      in if output_format = ''JPEG''
         then jpeg_branch e fs webp_path dirname base_name
         else gif_branch e fs webp_path dirname base_name)"

text \<open>The whole \<^verbatim>\<open>try\<close> block (lines 31 to 86): an exception, or the normal end, each with
  the file system it leaves.\<close>

definition try_block ::
  "env \<Rightarrow> filesystem \<Rightarrow> path \<Rightarrow> string \<Rightarrow> bool \<Rightarrow> (string + unit) \<times> filesystem" where
  "try_block e fs webp_path output_format delete_original =
     (case encode e fs webp_path output_format of
        Inl (msg, fs1) \<Rightarrow> (Inl msg, fs1)
      | Inr fs1 \<Rightarrow>
          if delete_original
          then (case os_remove e fs1 webp_path of
                  Inl msg \<Rightarrow> (Inl msg, fs1)
                | Inr fs2 \<Rightarrow> (Inr (), fs2))
          else (Inr (), fs1))"

text \<open>A task is the argument tuple, a result the returned tuple
  \<^verbatim>\<open>(success, webp_path, error message or None)\<close>.\<close>

type_synonym task = "path \<times> string \<times> bool"
type_synonym result = "bool \<times> path \<times> string option"

fun convert_single_webp :: "env \<Rightarrow> filesystem \<Rightarrow> task \<Rightarrow> result \<times> filesystem" where
  "convert_single_webp e fs (webp_path, output_format, delete_original) =
     (case try_block e fs webp_path output_format delete_original of
        (Inr u, fs') \<Rightarrow> ((True, webp_path, None), fs')
      | (Inl msg, fs') \<Rightarrow> ((False, webp_path, Some msg), fs'))"

text \<open>The path the task writes to (lines 31 to 36 and 49 to 50).\<close>

definition out_path_of :: "path \<Rightarrow> string \<Rightarrow> path" where
  "out_path_of webp_path output_format =
     (let (dirname, filename) = split_path webp_path;
          (base_name, ext) = splitext filename
      in join dirname (base_name @ (if output_format = ''JPEG'' then ''.jpg'' else ''.gif'')))"

section \<open>The application state and the batch: WebPConverterApp\<close>

text \<open>The radio buttons give \<^verbatim>\<open>self.mode\<close> one of two values, folder or files.\<close>

datatype select_mode = Folder | Files

text \<open>
  What the user is shown, in order: \<open>Progress c t\<close> is the progress label set to
  \<^verbatim>\<open>c / t\<close> with the progress bar set to \<open>c\<close>; \<open>ShowInfo t\<close> is the message box that
  announces the end of a batch of \<open>t\<close> files; the two warnings are those of
  \<^verbatim>\<open>convert_all\<close>. The list box, the selection label and the maximum of the bar are left
  out.
\<close>

datatype ui_event =
    Progress nat nat
  | ShowInfo nat
  | WarnNothingSelected
  | WarnNoWebpInFolder

record app =
  webp_paths :: "path list"
  mode :: select_mode
  output_format :: string
  delete_original :: bool
  total_files :: nat
  completed_files :: nat
  shown :: "ui_event list"








section \<open>Sample inputs\<close>

text \<open>A decoder for the examples: file 0 is corrupt, file 1 is a static image, any other
  file is an animation of three frames, the last without a duration.\<close>

definition sample_decode :: "content \<Rightarrow> string + frame \<times> frame list" where
  "sample_decode c =
     (case c of
        Bytes n \<Rightarrow>
          if n = 0 then Inl ''cannot identify image file''
          else if n = 1 then Inr (\<lparr>pixels = Raster 0, duration = None\<rparr>, [])
          else Inr (\<lparr>pixels = Raster 0, duration = Some 80\<rparr>,
                    [\<lparr>pixels = Raster 1, duration = Some 80\<rparr>,
                     \<lparr>pixels = Raster 2, duration = None\<rparr>])
      | _ \<Rightarrow> Inl ''cannot identify image file'')"

definition sample_env :: env where
  "sample_env =
     \<lparr> decode = sample_decode, convert_fails = (\<lambda>im. None), quantize_fails = (\<lambda>im. None),
       save_fails = (\<lambda>p. None), remove_fails = (\<lambda>p. None) \<rparr>"

definition denying_env :: env where
  "denying_env = sample_env\<lparr> remove_fails := (\<lambda>p. Some ''Permission denied'') \<rparr>"

definition full_disk_env :: env where
  "full_disk_env =
     sample_env\<lparr> save_fails := (\<lambda>p. Some (Broken ''No space left on device'')) \<rparr>"

definition sample_fs :: filesystem where
  "sample_fs =
     [''photo.webp'' \<mapsto> Bytes 1, ''anim.webp'' \<mapsto> Bytes 2, ''bad.webp'' \<mapsto> Bytes 0]"


section \<open>Properties of the path functions\<close>

lemma rfind_absent: "c \<notin> set s \<Longrightarrow> rfind c s = - 1"
  by (simp add: rfind_def)

lemma rfind_last: "c \<notin> set ys \<Longrightarrow> rfind c (xs @ c # ys) = int (length xs)"
proof -
  assume a: "c \<notin> set ys"
  have "takeWhile (\<lambda>x. x \<noteq> c) (rev ys @ c # rev xs) = rev ys"
    using a by (auto simp: takeWhile_append)
  then show ?thesis by (simp add: rfind_def)
qed


lemma endswith_append: "endswith (a @ t) t"
  by (simp add: endswith_def)

lemma endswith_prepend: "endswith b t \<Longrightarrow> endswith (a @ b) t"
  by (auto simp: endswith_def)

lemma endswith_single: "endswith d [c] = (d \<noteq> [] \<and> last d = c)"
  by (cases d rule: rev_cases) (auto simp: endswith_def)

lemma endswith_join: "endswith b t \<Longrightarrow> endswith (join a b) t"
  using endswith_prepend [of b t a] endswith_prepend [of b t "a @ [sep]"]
  by (simp add: join_def)



lemma split_path_plain: "sep \<notin> set p \<Longrightarrow> split_path p = ([], p)"
  by (simp add: split_path_def rfind_absent)

lemma split_path_root: "sep \<notin> set name \<Longrightarrow> split_path (sep # name) = ([sep], name)"
  using rfind_last [of sep name "[]"] by (simp add: split_path_def)

lemma rstrip_last: "d \<noteq> [] \<Longrightarrow> last d \<noteq> c \<Longrightarrow> rstrip c (d @ [c]) = d"
  by (cases d rule: rev_cases) (simp_all add: rstrip_def)

lemma split_path_dir:
  assumes "sep \<notin> set name" "d \<noteq> []" "last d \<noteq> sep"
  shows "split_path (d @ sep # name) = (d, name)"
proof -
  have r: "rfind sep (d @ sep # name) = int (length d)"
    using assms(1) by (rule rfind_last)
  have "d @ [sep] \<noteq> replicate (length (d @ [sep])) sep"
  proof
    assume "d @ [sep] = replicate (length (d @ [sep])) sep"
    then have "set (d @ [sep]) \<subseteq> {sep}"
      by (metis set_replicate_conv_if subset_insertI subset_refl)
    then have "last d = sep"
      using assms(2) last_in_set by fastforce
    then show False
      using assms(3) by simp
  qed
  then show ?thesis
    using r assms by (simp add: split_path_def Let_def rstrip_last nat_add_distrib)
qed

lemma splitext_name:
  assumes "sep \<notin> set stem" "sep \<notin> set x" "extsep \<notin> set x" "\<exists>c\<in>set stem. c \<noteq> extsep"
  shows "splitext (stem @ extsep # x) = (stem, extsep # x)"
proof -
  have d: "rfind extsep (stem @ extsep # x) = int (length stem)"
    using assms(3) by (rule rfind_last)
  have s: "rfind sep (stem @ extsep # x) = - 1"
    using assms(1,2) by (simp add: rfind_absent sep_def extsep_def)
  show ?thesis
    using assms(4) by (simp add: splitext_def d s list_ex_iff)
qed

lemma out_path_of_gif:
  "fmt \<noteq> ''JPEG'' \<Longrightarrow>
     out_path_of p fmt =
       join (fst (split_path p)) (fst (splitext (snd (split_path p))) @ ''.gif'')"
  by (simp add: out_path_of_def split_beta)

lemma out_path_of_jpeg:
  "out_path_of p ''JPEG'' =
     join (fst (split_path p)) (fst (splitext (snd (split_path p))) @ ''.jpg'')"
  by (simp add: out_path_of_def split_beta)





text \<open>The output path of a file \<^verbatim>\<open>d/stem.x\<close>, and of a bare name \<^verbatim>\<open>stem.x\<close>.\<close>

lemma out_path_of_shape:
  assumes "sep \<notin> set stem" and "\<exists>c\<in>set stem. c \<noteq> extsep" and "sep \<notin> set x"
    and "extsep \<notin> set x" and "d = [] \<or> last d \<noteq> sep"
  shows "out_path_of (d @ [sep] @ stem @ [extsep] @ x) fmt =
           d @ [sep] @ stem @ (if fmt = ''JPEG'' then ''.jpg'' else ''.gif'')"
    and "out_path_of (stem @ [extsep] @ x) fmt =
           stem @ (if fmt = ''JPEG'' then ''.jpg'' else ''.gif'')"
proof -
  have ne: "sep \<noteq> extsep"
    by (simp add: sep_def extsep_def)
  have nm: "sep \<notin> set (stem @ extsep # x)"
    using assms ne by auto
  have sx: "splitext (stem @ extsep # x) = (stem, extsep # x)"
    using assms by (intro splitext_name) auto
  have "stem \<noteq> []"
    using assms(2) by auto
  then have stem: "stem \<noteq> []" "hd stem \<noteq> sep"
    using assms(1) by (metis hd_in_set)+
  then have st: "\<not> startswith (stem @ t) [sep]" for t
    by (cases stem) (auto simp: startswith_def)
  have sp: "split_path (d @ sep # stem @ extsep # x) =
      (if d = [] then [sep] else d, stem @ extsep # x)"
    using assms(5) nm split_path_root [of "stem @ extsep # x"]
      split_path_dir [of "stem @ extsep # x" d]
    by auto
  have j: "join (if d = [] then [sep] else d) (stem @ t) = d @ [sep] @ stem @ t" for t
    using assms(5) st [of t] by (auto simp: join_def endswith_single)
  show "out_path_of (d @ [sep] @ stem @ [extsep] @ x) fmt =
        d @ [sep] @ stem @ (if fmt = ''JPEG'' then ''.jpg'' else ''.gif'')"
    using sp sx j by (simp add: out_path_of_def)
  have sp0: "split_path (stem @ extsep # x) = ([], stem @ extsep # x)"
    using nm by (rule split_path_plain)
  show "out_path_of (stem @ [extsep] @ x) fmt =
        stem @ (if fmt = ''JPEG'' then ''.jpg'' else ''.gif'')"
    using sp0 sx st by (simp add: out_path_of_def join_def)
qed

section \<open>Properties of the library calls and of the conversion\<close>

lemma save_written: "save e fs q c = Inr fs1 \<Longrightarrow> fs1 = fs(q \<mapsto> c)"
  by (simp add: save_def split: option.splits save_failure.splits)

lemma save_failed:
  "save e fs q c = Inl (msg, fs1) \<Longrightarrow>
     fs1 = fs \<or> save_fails e q = Some (Broken msg) \<and> fs1 = fs(q \<mapsto> Partial)"
  by (auto simp: save_def split: option.splits save_failure.splits)

lemma os_remove_removed: "os_remove e fs p = Inr fs2 \<Longrightarrow> fs2 = fs(p := None)"
  by (simp add: os_remove_def split: option.splits)


text \<open>The loop makes one remapped frame and one duration for each frame, in order.\<close>

lemma gif_loop_result:
  "gif_loop e pal frames acc durs = Inr (fr, ds) \<Longrightarrow>
     fr = acc @ map (\<lambda>f. QuantizeTo pal (ConvertRGB (pixels f))) frames \<and>
     ds = durs @ map (\<lambda>f. case duration f of None \<Rightarrow> 100 | Some d \<Rightarrow> d) frames"
proof (induction frames arbitrary: acc durs)
  case Nil
  then show ?case by simp
next
  case (Cons f frames)
  from Cons.prems obtain f_rgb f_p where
    c: "convert_rgb e (pixels f) = Inr f_rgb" and
    q: "quantize_to e pal f_rgb = Inr f_p" and
    r: "gif_loop e pal frames (acc @ [f_p])
          (durs @ [case duration f of None \<Rightarrow> 100 | Some d \<Rightarrow> d]) = Inr (fr, ds)"
    by (auto split: sum.splits)
  have "f_rgb = ConvertRGB (pixels f)"
    using c by (simp add: convert_rgb_def split: option.splits)
  then have "f_p = QuantizeTo pal (ConvertRGB (pixels f))"
    using q by (simp add: quantize_to_def split: option.splits)
  then show ?case
    using Cons.IH [OF r] by simp
qed

lemma gif_loop_succeeds:
  "\<forall>f\<in>set frames. convert_fails e (pixels f) = None \<and>
       quantize_fails e (ConvertRGB (pixels f)) = None \<Longrightarrow>
   \<exists>fr ds. gif_loop e pal frames acc durs = Inr (fr, ds)"
  by (induction frames arbitrary: acc durs) (simp_all add: convert_rgb_def quantize_to_def)

lemma gif_frames_result:
  assumes "gif_frames e img rest = Inr (pal, frames_rgb, durations)"
  shows "pal = QuantizeMedianCut 256 (ConvertRGB (pixels img))"
    and "frames_rgb = map (\<lambda>f. QuantizeTo pal (ConvertRGB (pixels f))) (img # rest)"
    and "durations = map (\<lambda>f. case duration f of None \<Rightarrow> 100 | Some d \<Rightarrow> d) (img # rest)"
proof -
  from assms obtain first_rgb where
    c: "convert_rgb e (pixels img) = Inr first_rgb" and
    q: "quantize_mediancut e 256 first_rgb = Inr pal" and
    l: "gif_loop e pal (img # rest) [] [] = Inr (frames_rgb, durations)"
    unfolding gif_frames_def by (auto split: sum.splits)
  have "first_rgb = ConvertRGB (pixels img)"
    using c by (simp add: convert_rgb_def split: option.splits)
  then show "pal = QuantizeMedianCut 256 (ConvertRGB (pixels img))"
    using q by (auto simp: quantize_mediancut_def split: option.splits)
  show "frames_rgb = map (\<lambda>f. QuantizeTo pal (ConvertRGB (pixels f))) (img # rest)"
    using gif_loop_result [OF l] by simp
  show "durations = map (\<lambda>f. case duration f of None \<Rightarrow> 100 | Some d \<Rightarrow> d) (img # rest)"
    using gif_loop_result [OF l] by simp
qed

lemma jpeg_branch_written:
  assumes "jpeg_branch e fs p d b = Inr fs1"
  shows "\<exists>c. fs1 = fs(join d (b @ ''.jpg'') \<mapsto> c) \<and> is_jpeg c"
proof -
  from assms obtain im where
    "save e fs (join d (b @ ''.jpg'')) (JPEG_file im 100 0 True) = Inr fs1"
    by (auto simp: jpeg_branch_def Let_def split: sum.splits)
  then have "fs1 = fs(join d (b @ ''.jpg'') \<mapsto> JPEG_file im 100 0 True)"
    by (rule save_written)
  then show ?thesis by auto
qed

lemma gif_branch_written:
  assumes "gif_branch e fs p d b = Inr fs1"
  shows "\<exists>c. fs1 = fs(join d (b @ ''.gif'') \<mapsto> c) \<and> \<not> is_jpeg c"
proof -
  from assms obtain c where "save e fs (join d (b @ ''.gif'')) c = Inr fs1" and "\<not> is_jpeg c"
    by (auto simp: gif_branch_def Let_def split: sum.splits if_splits)
  then show ?thesis
    using save_written by blast
qed

lemma gif_branch_opened:
  "image_open e fs p = Inr (img, rest) \<Longrightarrow>
   gif_branch e fs p d b =
     (case gif_frames e img rest of
        Inl msg \<Rightarrow> Inl (msg, fs)
      | Inr (paletted_first, frames_rgb, durations) \<Rightarrow>
          if length frames_rgb \<le> 1
          then save e fs (join d (b @ ''.gif'')) (GIF_file paletted_first)
          else save e fs (join d (b @ ''.gif''))
                 (GIF_all (frames_rgb ! 0) (drop 1 frames_rgb) 0 durations 2 False))"
  by (simp add: gif_branch_def Let_def)

lemma encode_gif:
  "fmt \<noteq> ''JPEG'' \<Longrightarrow>
     encode e fs p fmt =
       gif_branch e fs p (fst (split_path p)) (fst (splitext (snd (split_path p))))"
  by (simp add: encode_def split_beta)

lemma encode_jpeg:
  "encode e fs p ''JPEG'' =
     jpeg_branch e fs p (fst (split_path p)) (fst (splitext (snd (split_path p))))"
  by (simp add: encode_def split_beta)

lemma encode_written:
  assumes "encode e fs p fmt = Inr fs1"
  shows "\<exists>c. fs1 = fs(out_path_of p fmt \<mapsto> c) \<and> (is_jpeg c \<longleftrightarrow> fmt = ''JPEG'')"
proof (cases "fmt = ''JPEG''")
  case True
  then show ?thesis
    using assms
      jpeg_branch_written [of e fs p "fst (split_path p)" "fst (splitext (snd (split_path p)))" fs1]
    by (simp add: encode_jpeg out_path_of_jpeg)
next
  case False
  then show ?thesis
    using assms
      gif_branch_written [of e fs p "fst (split_path p)" "fst (splitext (snd (split_path p)))" fs1]
    by (simp add: encode_gif out_path_of_gif)
qed


text \<open>The three ways the \<^verbatim>\<open>try\<close> block ends.\<close>

lemma jpeg_branch_failed:
  assumes "jpeg_branch e fs p d b = Inl (msg, fs1)"
  shows "fs1 = fs \<or>
     save_fails e (join d (b @ ''.jpg'')) = Some (Broken msg) \<and>
     fs1 = fs(join d (b @ ''.jpg'') \<mapsto> Partial)"
proof -
  from assms have "fs1 = fs \<or>
      (\<exists>c. save e fs (join d (b @ ''.jpg'')) c = Inl (msg, fs1))"
    by (auto simp: jpeg_branch_def Let_def split: sum.splits)
  then show ?thesis
    using save_failed by blast
qed

lemma gif_branch_failed:
  assumes "gif_branch e fs p d b = Inl (msg, fs1)"
  shows "fs1 = fs \<or>
     save_fails e (join d (b @ ''.gif'')) = Some (Broken msg) \<and>
     fs1 = fs(join d (b @ ''.gif'') \<mapsto> Partial)"
proof -
  from assms have "fs1 = fs \<or>
      (\<exists>c. save e fs (join d (b @ ''.gif'')) c = Inl (msg, fs1))"
    by (auto simp: gif_branch_def Let_def split: sum.splits if_splits)
  then show ?thesis
    using save_failed by blast
qed

text \<open>A conversion that fails has written nothing, unless it is the \<^verbatim>\<open>save\<close> that broke
  off: then the output path holds a file cut short, and nothing else has changed.\<close>

lemma encode_failed:
  assumes "encode e fs p fmt = Inl (msg, fs1)"
  shows "fs1 = fs \<or>
     save_fails e (out_path_of p fmt) = Some (Broken msg) \<and>
     fs1 = fs(out_path_of p fmt \<mapsto> Partial)"
proof (cases "fmt = ''JPEG''")
  case True
  then show ?thesis
    using assms
      jpeg_branch_failed [of e fs p "fst (split_path p)" "fst (splitext (snd (split_path p)))"
        msg fs1]
    by (simp add: encode_jpeg out_path_of_jpeg)
next
  case False
  then show ?thesis
    using assms
      gif_branch_failed [of e fs p "fst (split_path p)" "fst (splitext (snd (split_path p)))"
        msg fs1]
    by (simp add: encode_gif out_path_of_gif)
qed

lemma encode_not_opened:
  "image_open e fs p = Inl msg \<Longrightarrow> encode e fs p fmt = Inl (msg, fs)"
  by (simp add: encode_def jpeg_branch_def gif_branch_def Let_def split_beta)

lemma convert_encode_fails:
  "encode e fs p fmt = Inl (msg, fs1) \<Longrightarrow>
     convert_single_webp e fs (p, fmt, del) = ((False, p, Some msg), fs1)"
  by (simp add: try_block_def)

lemma convert_keep:
  "encode e fs p fmt = Inr fs1 \<Longrightarrow>
     convert_single_webp e fs (p, fmt, False) = ((True, p, None), fs1)"
  by (simp add: try_block_def)

lemma convert_delete:
  "encode e fs p fmt = Inr fs1 \<Longrightarrow>
     convert_single_webp e fs (p, fmt, True) =
       (case os_remove e fs1 p of
          Inl msg \<Rightarrow> ((False, p, Some msg), fs1)
        | Inr fs2 \<Rightarrow> ((True, p, None), fs2))"
  by (simp add: try_block_def split: sum.splits)

lemma convert_same_encode:
  "encode e fs p fmt = encode e fs p fmt' \<Longrightarrow>
     convert_single_webp e fs (p, fmt, del) = convert_single_webp e fs (p, fmt', del)"
  by (simp add: try_block_def)

declare convert_single_webp.simps [simp del]

subsection \<open>The sample inputs, evaluated\<close>

lemmas path_defs = split_path_def splitext_def join_def rfind_def rstrip_def startswith_def
  endswith_def sep_def extsep_def Let_def

lemma out_photo_jpg: "out_path_of ''photo.webp'' ''JPEG'' = ''photo.jpg''"
  by (simp add: out_path_of_def path_defs)

lemma out_anim_gif: "out_path_of ''anim.webp'' ''GIF'' = ''anim.gif''"
  by (simp add: out_path_of_def path_defs)

lemma out_photo_gif: "out_path_of ''photo.webp'' ''GIF'' = ''photo.gif''"
  by (simp add: out_path_of_def path_defs)

lemma sample_env_fields:
  "decode sample_env = sample_decode" "convert_fails sample_env im = None"
  "quantize_fails sample_env im = None" "save_fails sample_env q = None"
  "remove_fails sample_env q = None"
  by (simp_all add: sample_env_def)

lemma denying_env_fields:
  "decode denying_env = sample_decode" "convert_fails denying_env im = None"
  "quantize_fails denying_env im = None" "save_fails denying_env q = None"
  "remove_fails denying_env q = Some ''Permission denied''"
  by (simp_all add: denying_env_def sample_env_def)

lemma image_open_denying: "image_open denying_env fs p = image_open sample_env fs p"
  by (simp add: image_open_def denying_env_fields sample_env_fields split: option.splits)

lemma open_photo:
  "image_open sample_env sample_fs ''photo.webp'' =
     Inr (\<lparr>pixels = Raster 0, duration = None\<rparr>, [])"
  by (simp add: image_open_def sample_fs_def sample_env_def sample_decode_def)

lemma open_anim:
  "image_open sample_env sample_fs ''anim.webp'' =
     Inr (\<lparr>pixels = Raster 0, duration = Some 80\<rparr>,
          [\<lparr>pixels = Raster 1, duration = Some 80\<rparr>, \<lparr>pixels = Raster 2, duration = None\<rparr>])"
  by (simp add: image_open_def sample_fs_def sample_env_def sample_decode_def)

lemma open_bad:
  "image_open sample_env sample_fs ''bad.webp'' = Inl ''cannot identify image file''"
  by (simp add: image_open_def sample_fs_def sample_env_def sample_decode_def)

lemma encode_photo_jpeg:
  "encode sample_env sample_fs ''photo.webp'' ''JPEG'' =
     Inr (sample_fs(''photo.jpg'' \<mapsto> JPEG_file (ConvertRGB (Raster 0)) 100 0 True))"
  using open_photo
  by (simp add: encode_jpeg jpeg_branch_def convert_rgb_def save_def sample_env_fields path_defs)

lemma encode_photo_jpeg_denying:
  "encode denying_env sample_fs ''photo.webp'' ''JPEG'' =
     Inr (sample_fs(''photo.jpg'' \<mapsto> JPEG_file (ConvertRGB (Raster 0)) 100 0 True))"
  using open_photo
  by (simp add: encode_jpeg jpeg_branch_def convert_rgb_def save_def denying_env_fields path_defs
      image_open_denying)

lemma remove_photo_denied:
  "os_remove denying_env
     (sample_fs(''photo.jpg'' \<mapsto> JPEG_file (ConvertRGB (Raster 0)) 100 0 True)) ''photo.webp''
   = Inl ''Permission denied''"
  by (simp add: os_remove_def sample_fs_def denying_env_fields)

lemma encode_bad_jpeg:
  "encode sample_env sample_fs ''bad.webp'' ''JPEG'' =
     Inl (''cannot identify image file'', sample_fs)"
  using open_bad by (rule encode_not_opened)

lemma full_disk_env_fields:
  "decode full_disk_env = sample_decode" "convert_fails full_disk_env im = None"
  "quantize_fails full_disk_env im = None"
  "save_fails full_disk_env q = Some (Broken ''No space left on device'')"
  "remove_fails full_disk_env q = None"
  by (simp_all add: full_disk_env_def sample_env_def)


lemma image_open_full_disk: "image_open full_disk_env fs p = image_open sample_env fs p"
  by (simp add: image_open_def full_disk_env_fields sample_env_fields split: option.splits)

lemma encode_photo_jpeg_full_disk:
  "encode full_disk_env sample_fs ''photo.webp'' ''JPEG'' =
     Inl (''No space left on device'', sample_fs(''photo.jpg'' \<mapsto> Partial))"
  using open_photo
  by (simp add: encode_jpeg jpeg_branch_def convert_rgb_def save_def full_disk_env_fields
      path_defs image_open_full_disk)

section \<open>The converter: what a task does\<close>

text \<open>
  \<^bold>\<open>C2\<close>. When the conversion has succeeded and the removal of the original then fails,
  the exception is caught: the task returns \<^verbatim>\<open>(False, webp_path, message)\<close>, and the file
  system is the one the conversion left. The removal is inside the \<^verbatim>\<open>try\<close> block.
\<close>

theorem delete_failure_caught:
  assumes "encode e fs p fmt = Inr fs1" and "os_remove e fs1 p = Inl msg"
  shows "convert_single_webp e fs (p, fmt, True) = ((False, p, Some msg), fs1)"
  using convert_delete [OF assms(1)] assms(2) by simp

theorem delete_failure_caught_witness:
  "convert_single_webp denying_env sample_fs (''photo.webp'', ''JPEG'', True) =
     ((False, ''photo.webp'', Some ''Permission denied''),
      sample_fs(''photo.jpg'' \<mapsto> JPEG_file (ConvertRGB (Raster 0)) 100 0 True))"
  using delete_failure_caught [OF encode_photo_jpeg_denying remove_photo_denied] .




text \<open>
  \<^bold>\<open>C4\<close>. A GIF task whose source opens and in which no conversion and no quantization
  raises makes one palette image, the first decoded frame converted to RGB and quantized
  by median cut with \<^verbatim>\<open>colors=256\<close>, and converts every decoded frame of the source, the
  first included, to RGB and quantizes it onto the palette of that one image; no frame gets
  a quantization of its own. What the task then saves is made of that palette image and of
  those frames only.
\<close>

theorem gif_canonical_palette:
  assumes "fmt \<noteq> ''JPEG''" and "image_open e fs p = Inr (img, rest)"
    and "\<forall>f\<in>set (img # rest).
           convert_fails e (pixels f) = None \<and> quantize_fails e (ConvertRGB (pixels f)) = None"
  shows "let pal = QuantizeMedianCut 256 (ConvertRGB (pixels img));
             remap = (\<lambda>f. QuantizeTo pal (ConvertRGB (pixels f)));
             dur = (\<lambda>f. case duration f of None \<Rightarrow> 100 | Some d \<Rightarrow> d)
         in gif_frames e img rest = Inr (pal, map remap (img # rest), map dur (img # rest)) \<and>
            encode e fs p fmt =
              save e fs (out_path_of p fmt)
                (if rest = [] then GIF_file pal
                 else GIF_all (remap img) (map remap rest) 0 (map dur (img # rest)) 2 False)"
proof -
  let ?pal = "QuantizeMedianCut 256 (ConvertRGB (pixels img))"
  let ?remap = "\<lambda>f. QuantizeTo ?pal (ConvertRGB (pixels f))"
  let ?dur = "\<lambda>f. case duration f of None \<Rightarrow> 100 | Some d \<Rightarrow> (d::int)"
  have first: "convert_rgb e (pixels img) = Inr (ConvertRGB (pixels img))"
    "quantize_mediancut e 256 (ConvertRGB (pixels img)) = Inr ?pal"
    using assms(3) by (simp_all add: convert_rgb_def quantize_mediancut_def)
  obtain fr ds where l: "gif_loop e ?pal (img # rest) [] [] = Inr (fr, ds)"
    using gif_loop_succeeds [OF assms(3)] by blast
  have g: "gif_frames e img rest = Inr (?pal, fr, ds)"
    using first l by (simp add: gif_frames_def)
  have fr: "fr = map ?remap (img # rest)" and ds: "ds = map ?dur (img # rest)"
    using gif_frames_result(2,3) [OF g] by simp_all
  have "encode e fs p fmt =
      (if length fr \<le> 1
       then save e fs (out_path_of p fmt) (GIF_file ?pal)
       else save e fs (out_path_of p fmt) (GIF_all (fr ! 0) (drop 1 fr) 0 ds 2 False))"
    using g unfolding encode_gif [OF assms(1)] gif_branch_opened [OF assms(2)]
      out_path_of_gif [OF assms(1)]
    by simp
  then have "encode e fs p fmt =
      save e fs (out_path_of p fmt)
        (if rest = [] then GIF_file ?pal
         else GIF_all (?remap img) (map ?remap rest) 0 (map ?dur (img # rest)) 2 False)"
    using fr ds by (cases "rest = []") simp_all
  then show ?thesis
    using g fr ds by (simp add: Let_def)
qed

theorem gif_canonical_palette_witness:
  "gif_frames sample_env \<lparr>pixels = Raster 0, duration = Some 80\<rparr>
      [\<lparr>pixels = Raster 1, duration = Some 80\<rparr>, \<lparr>pixels = Raster 2, duration = None\<rparr>] =
    Inr (QuantizeMedianCut 256 (ConvertRGB (Raster 0)),
         [QuantizeTo (QuantizeMedianCut 256 (ConvertRGB (Raster 0))) (ConvertRGB (Raster 0)),
          QuantizeTo (QuantizeMedianCut 256 (ConvertRGB (Raster 0))) (ConvertRGB (Raster 1)),
          QuantizeTo (QuantizeMedianCut 256 (ConvertRGB (Raster 0))) (ConvertRGB (Raster 2))],
         [80, 80, 100]) \<and>
   encode sample_env sample_fs ''anim.webp'' ''GIF'' =
     Inr (sample_fs(''anim.gif'' \<mapsto>
       GIF_all (QuantizeTo (QuantizeMedianCut 256 (ConvertRGB (Raster 0))) (ConvertRGB (Raster 0)))
         [QuantizeTo (QuantizeMedianCut 256 (ConvertRGB (Raster 0))) (ConvertRGB (Raster 1)),
          QuantizeTo (QuantizeMedianCut 256 (ConvertRGB (Raster 0))) (ConvertRGB (Raster 2))]
         0 [80, 80, 100] 2 False)) \<and>
   gif_frames sample_env \<lparr>pixels = Raster 0, duration = None\<rparr> [] =
    Inr (QuantizeMedianCut 256 (ConvertRGB (Raster 0)),
         [QuantizeTo (QuantizeMedianCut 256 (ConvertRGB (Raster 0))) (ConvertRGB (Raster 0))],
         [100]) \<and>
   encode sample_env sample_fs ''photo.webp'' ''GIF'' =
     Inr (sample_fs(''photo.gif'' \<mapsto> GIF_file (QuantizeMedianCut 256 (ConvertRGB (Raster 0)))))"
proof -
  have f: "''GIF'' \<noteq> ''JPEG''" by simp
  have a: "\<forall>f\<in>set (\<lparr>pixels = Raster 0, duration = Some 80\<rparr> #
        [\<lparr>pixels = Raster 1, duration = Some 80\<rparr>, \<lparr>pixels = Raster 2, duration = None\<rparr>]).
      convert_fails sample_env (pixels f) = None \<and>
      quantize_fails sample_env (ConvertRGB (pixels f)) = None"
    by (simp add: sample_env_fields)
  have b: "\<forall>f\<in>set (\<lparr>pixels = Raster 0, duration = None\<rparr> # []).
      convert_fails sample_env (pixels f) = None \<and>
      quantize_fails sample_env (ConvertRGB (pixels f)) = None"
    by (simp add: sample_env_fields)
  show ?thesis
    using gif_canonical_palette [OF f open_anim a] gif_canonical_palette [OF f open_photo b]
    by (simp add: Let_def save_def sample_env_fields out_anim_gif out_photo_gif)
qed

text \<open>
  \<^bold>\<open>C5\<close>. A GIF task that succeeds on an image of \<open>K\<close> frames writes, when \<open>K = 1\<close>, the
  palette image of the first frame as a static GIF; when \<open>K > 1\<close>, one file holding the
  \<open>K\<close> remapped frames in decoded order, saved with \<^verbatim>\<open>loop=0\<close>, \<^verbatim>\<open>disposal=2\<close>,
  \<^verbatim>\<open>optimize=False\<close> and the durations of the frames, 100 where a frame has none.
\<close>

theorem gif_output:
  assumes "fmt \<noteq> ''JPEG''" and "image_open e fs p = Inr (img, rest)"
    and "encode e fs p fmt = Inr fs1"
  shows "let pal = QuantizeMedianCut 256 (ConvertRGB (pixels img));
             remap = (\<lambda>f. QuantizeTo pal (ConvertRGB (pixels f)));
             dur = (\<lambda>f. case duration f of None \<Rightarrow> 100 | Some d \<Rightarrow> d)
         in fs1 = fs(out_path_of p fmt \<mapsto>
                   (if rest = [] then GIF_file pal
                    else GIF_all (remap img) (map remap rest) 0 (map dur (img # rest)) 2 False))"
proof -
  let ?out = "out_path_of p fmt"
  have br: "gif_branch e fs p (fst (split_path p)) (fst (splitext (snd (split_path p)))) = Inr fs1"
    using assms(1,3) by (simp add: encode_gif)
  then obtain pal frames_rgb durations where
    g: "gif_frames e img rest = Inr (pal, frames_rgb, durations)"
    using assms(2) by (auto simp: gif_branch_opened split: sum.splits)
  note r = gif_frames_result [OF g]
  have sv: "(if length frames_rgb \<le> 1
          then save e fs ?out (GIF_file pal)
          else save e fs ?out (GIF_all (frames_rgb ! 0) (drop 1 frames_rgb) 0 durations 2 False))
        = Inr fs1"
    using br g unfolding gif_branch_opened [OF assms(2)] out_path_of_gif [OF assms(1)]
    by simp
  show ?thesis
  proof (cases "rest = []")
    case True
    then have "save e fs ?out (GIF_file pal) = Inr fs1"
      using sv r(2) by simp
    then show ?thesis
      using True r(1) save_written [of e fs ?out "GIF_file pal" fs1] by (simp add: Let_def)
  next
    case False
    then have "save e fs ?out (GIF_all (frames_rgb ! 0) (drop 1 frames_rgb) 0 durations 2 False)
        = Inr fs1"
      using sv r(2) by simp
    then have "fs1 = fs(?out \<mapsto> GIF_all (frames_rgb ! 0) (drop 1 frames_rgb) 0 durations 2 False)"
      by (rule save_written)
    then show ?thesis
      using False r by (simp add: Let_def)
  qed
qed

theorem gif_output_witness:
  "encode sample_env sample_fs ''anim.webp'' ''GIF'' =
     Inr (sample_fs(''anim.gif'' \<mapsto>
       GIF_all (QuantizeTo (QuantizeMedianCut 256 (ConvertRGB (Raster 0))) (ConvertRGB (Raster 0)))
         [QuantizeTo (QuantizeMedianCut 256 (ConvertRGB (Raster 0))) (ConvertRGB (Raster 1)),
          QuantizeTo (QuantizeMedianCut 256 (ConvertRGB (Raster 0))) (ConvertRGB (Raster 2))]
         0 [80, 80, 100] 2 False)) \<and>
   encode sample_env sample_fs ''photo.webp'' ''GIF'' =
     Inr (sample_fs(''photo.gif'' \<mapsto> GIF_file (QuantizeMedianCut 256 (ConvertRGB (Raster 0)))))"
proof -
  have f: "''GIF'' \<noteq> ''JPEG''" by simp
  obtain fs1 where s: "encode sample_env sample_fs ''anim.webp'' ''GIF'' = Inr fs1"
    by (simp add: encode_gif gif_branch_opened [OF open_anim] gif_frames_def convert_rgb_def
        quantize_mediancut_def quantize_to_def save_def sample_env_fields)
  obtain fs2 where t: "encode sample_env sample_fs ''photo.webp'' ''GIF'' = Inr fs2"
    by (simp add: encode_gif gif_branch_opened [OF open_photo] gif_frames_def convert_rgb_def
        quantize_mediancut_def quantize_to_def save_def sample_env_fields)
  show ?thesis
    using gif_output [OF f open_anim s] s gif_output [OF f open_photo t] t
    by (simp add: out_anim_gif out_photo_gif Let_def)
qed

text \<open>
  \<^bold>\<open>C6\<close>. A JPEG task whose image opens and whose first frame converts makes one call of
  the encoder: on the first frame converted to RGB, with \<^verbatim>\<open>quality=100\<close>,
  \<^verbatim>\<open>subsampling=0\<close> and \<^verbatim>\<open>optimize=True\<close>. The frames after the first have no part in
  it, and an encoder that raises is not called again.
\<close>

theorem jpeg_output:
  assumes "image_open e fs p = Inr (img, rest)" and "convert_fails e (pixels img) = None"
  shows "encode e fs p ''JPEG'' =
     (case save_fails e (out_path_of p ''JPEG'') of
        Some (Refused msg) \<Rightarrow> Inl (msg, fs)
      | Some (Broken msg) \<Rightarrow> Inl (msg, fs(out_path_of p ''JPEG'' \<mapsto> Partial))
      | None \<Rightarrow>
          Inr (fs(out_path_of p ''JPEG'' \<mapsto> JPEG_file (ConvertRGB (pixels img)) 100 0 True)))"
  using assms unfolding out_path_of_jpeg
  by (simp add: encode_jpeg jpeg_branch_def convert_rgb_def save_def Let_def)

theorem jpeg_output_witness:
  "encode sample_env sample_fs ''anim.webp'' ''JPEG'' =
     Inr (sample_fs(''anim.jpg'' \<mapsto> JPEG_file (ConvertRGB (Raster 0)) 100 0 True)) \<and>
   encode full_disk_env sample_fs ''anim.webp'' ''JPEG'' =
     Inl (''No space left on device'', sample_fs(''anim.jpg'' \<mapsto> Partial))"
proof -
  have o: "out_path_of ''anim.webp'' ''JPEG'' = ''anim.jpg''"
    by (simp add: out_path_of_def path_defs)
  have c: "convert_fails sample_env (pixels \<lparr>pixels = Raster 0, duration = Some 80\<rparr>) = None"
    by (simp add: sample_env_fields)
  have o': "image_open full_disk_env sample_fs ''anim.webp'' =
      Inr (\<lparr>pixels = Raster 0, duration = Some 80\<rparr>,
           [\<lparr>pixels = Raster 1, duration = Some 80\<rparr>, \<lparr>pixels = Raster 2, duration = None\<rparr>])"
    using open_anim by (simp add: image_open_full_disk)
  have c': "convert_fails full_disk_env (pixels \<lparr>pixels = Raster 0, duration = Some 80\<rparr>) = None"
    by (simp add: full_disk_env_fields)
  show ?thesis
    using jpeg_output [OF open_anim c] jpeg_output [OF o' c']
    by (simp add: o sample_env_fields full_disk_env_fields)
qed

text \<open>
  \<^bold>\<open>C7\<close>, as amended. A task whose decoding, quantization and encoding succeed writes
  exactly one file, at \<^verbatim>\<open>join(dirname, base_name + ext)\<close> with \<^verbatim>\<open>ext\<close> being
  \<^verbatim>\<open>.jpg\<close> for \<^verbatim>\<open>"JPEG"\<close> and \<^verbatim>\<open>.gif\<close> otherwise; beyond that the task can only remove
  its source. A task whose source does not open writes nothing, and so does every task
  that fails, unless it is the \<^verbatim>\<open>save\<close> itself that breaks off: that leaves a file cut
  short at the same path, and nothing else. For a source \<^verbatim>\<open>d/stem.x\<close> the path is
  \<^verbatim>\<open>d/stem.jpg\<close> or \<^verbatim>\<open>d/stem.gif\<close>, beside the source, and for a bare \<^verbatim>\<open>stem.x\<close> it is
  \<^verbatim>\<open>stem.jpg\<close> or \<^verbatim>\<open>stem.gif\<close>.
\<close>

theorem output_file_written:
  "(\<forall>fs1. encode e fs p fmt = Inr fs1 \<longrightarrow>
      (\<exists>c. fs1 = fs(out_path_of p fmt \<mapsto> c)) \<and>
      (snd (convert_single_webp e fs (p, fmt, del)) = fs1 \<or>
       del \<and> snd (convert_single_webp e fs (p, fmt, del)) = fs1(p := None))) \<and>
   (\<forall>msg. image_open e fs p = Inl msg \<longrightarrow>
      convert_single_webp e fs (p, fmt, del) = ((False, p, Some msg), fs)) \<and>
   (\<forall>msg fs1. encode e fs p fmt = Inl (msg, fs1) \<longrightarrow>
      snd (convert_single_webp e fs (p, fmt, del)) = fs1 \<and>
      (fs1 = fs \<or>
       save_fails e (out_path_of p fmt) = Some (Broken msg) \<and>
       fs1 = fs(out_path_of p fmt \<mapsto> Partial))) \<and>
   (sep \<notin> set stem \<and> (\<exists>c\<in>set stem. c \<noteq> extsep) \<and> sep \<notin> set x \<and> extsep \<notin> set x \<and>
    (d = [] \<or> last d \<noteq> sep) \<longrightarrow>
      out_path_of (d @ [sep] @ stem @ [extsep] @ x) fmt =
        d @ [sep] @ stem @ (if fmt = ''JPEG'' then ''.jpg'' else ''.gif'') \<and>
      out_path_of (stem @ [extsep] @ x) fmt =
        stem @ (if fmt = ''JPEG'' then ''.jpg'' else ''.gif''))"
proof (intro conjI allI impI)
  fix fs1 assume e: "encode e fs p fmt = Inr fs1"
  show "\<exists>c. fs1 = fs(out_path_of p fmt \<mapsto> c)"
    using encode_written [OF e] by blast
  show "snd (convert_single_webp e fs (p, fmt, del)) = fs1 \<or>
       del \<and> snd (convert_single_webp e fs (p, fmt, del)) = fs1(p := None)"
  proof (cases del)
    case False
    then show ?thesis by (simp add: convert_keep [OF e])
  next
    case True
    then show ?thesis
      using os_remove_removed [of e fs1 p]
      by (auto simp: convert_delete [OF e] split: sum.splits)
  qed
next
  fix msg assume "image_open e fs p = Inl msg"
  then have "encode e fs p fmt = Inl (msg, fs)"
    by (rule encode_not_opened)
  then show "convert_single_webp e fs (p, fmt, del) = ((False, p, Some msg), fs)"
    by (rule convert_encode_fails)
next
  fix msg fs1 assume f: "encode e fs p fmt = Inl (msg, fs1)"
  show "snd (convert_single_webp e fs (p, fmt, del)) = fs1"
    by (simp add: convert_encode_fails [OF f])
  show "fs1 = fs \<or>
       save_fails e (out_path_of p fmt) = Some (Broken msg) \<and>
       fs1 = fs(out_path_of p fmt \<mapsto> Partial)"
    using f by (rule encode_failed)
next
  assume a: "sep \<notin> set stem \<and> (\<exists>c\<in>set stem. c \<noteq> extsep) \<and> sep \<notin> set x \<and> extsep \<notin> set x \<and>
    (d = [] \<or> last d \<noteq> sep)"
  then show "out_path_of (d @ [sep] @ stem @ [extsep] @ x) fmt =
        d @ [sep] @ stem @ (if fmt = ''JPEG'' then ''.jpg'' else ''.gif'')"
    by (intro out_path_of_shape(1)) auto
  from a show "out_path_of (stem @ [extsep] @ x) fmt =
        stem @ (if fmt = ''JPEG'' then ''.jpg'' else ''.gif'')"
    by (intro out_path_of_shape(2)) auto
qed

theorem output_file_written_witness:
  "snd (convert_single_webp sample_env sample_fs (''photo.webp'', ''JPEG'', False)) =
     sample_fs(''photo.jpg'' \<mapsto> JPEG_file (ConvertRGB (Raster 0)) 100 0 True) \<and>
   convert_single_webp sample_env sample_fs (''bad.webp'', ''JPEG'', False) =
     ((False, ''bad.webp'', Some ''cannot identify image file''), sample_fs) \<and>
   snd (convert_single_webp full_disk_env sample_fs (''photo.webp'', ''JPEG'', False)) =
     sample_fs(''photo.jpg'' \<mapsto> Partial) \<and>
   out_path_of ''pics/photo.webp'' ''GIF'' = ''pics/photo.gif'' \<and>
   out_path_of ''photo.webp'' ''GIF'' = ''photo.gif''"
proof -
  note w1 = output_file_written [where e = sample_env and fs = sample_fs and p = "''photo.webp''"
      and fmt = "''JPEG''" and del = False and stem = "''photo''" and x = "''webp''"
      and d = "''pics''"]
  note w2 = output_file_written [where e = sample_env and fs = sample_fs and p = "''bad.webp''"
      and fmt = "''JPEG''" and del = False and stem = "''photo''" and x = "''webp''"
      and d = "''pics''"]
  note w3 = output_file_written [where e = sample_env and fs = sample_fs and p = "''photo.webp''"
      and fmt = "''GIF''" and del = False and stem = "''photo''" and x = "''webp''"
      and d = "''pics''"]
  note w4 = output_file_written [where e = full_disk_env and fs = sample_fs
      and p = "''photo.webp''" and fmt = "''JPEG''" and del = False and stem = "''photo''"
      and x = "''webp''" and d = "''pics''"]
  have "snd (convert_single_webp sample_env sample_fs (''photo.webp'', ''JPEG'', False)) =
     sample_fs(''photo.jpg'' \<mapsto> JPEG_file (ConvertRGB (Raster 0)) 100 0 True)"
    using w1 encode_photo_jpeg by simp
  moreover have "convert_single_webp sample_env sample_fs (''bad.webp'', ''JPEG'', False) =
     ((False, ''bad.webp'', Some ''cannot identify image file''), sample_fs)"
    using w2 open_bad by blast
  moreover have "snd (convert_single_webp full_disk_env sample_fs (''photo.webp'', ''JPEG'', False))
      = sample_fs(''photo.jpg'' \<mapsto> Partial)"
    using w4 encode_photo_jpeg_full_disk by blast
  moreover have "out_path_of ''pics/photo.webp'' ''GIF'' = ''pics/photo.gif'' \<and>
      out_path_of ''photo.webp'' ''GIF'' = ''photo.gif''"
    using w3 by (simp add: sep_def extsep_def)
  ultimately show ?thesis by simp
qed

text \<open>The claim as it was stated, that every task writes one output file, fails on a
  source that does not decode: the task returns its failure and the file system is
  unchanged.\<close>

theorem no_output_for_corrupt_source:
  "convert_single_webp sample_env sample_fs (''bad.webp'', ''JPEG'', False) =
     ((False, ''bad.webp'', Some ''cannot identify image file''), sample_fs)"
  using encode_bad_jpeg by (rule convert_encode_fails)

text \<open>
  \<^bold>\<open>C10\<close>. With any \<^verbatim>\<open>output_format\<close> other than the string \<^verbatim>\<open>JPEG\<close> the task does what
  it does with \<^verbatim>\<open>GIF\<close>: its output path ends in \<^verbatim>\<open>.gif\<close> and the file it writes is not
  made by the JPEG encoder. With \<^verbatim>\<open>JPEG\<close> the file written is made by the JPEG encoder.
\<close>

theorem gif_unless_jpeg:
  assumes "fmt \<noteq> ''JPEG''"
  shows "convert_single_webp e fs (p, fmt, del) = convert_single_webp e fs (p, ''GIF'', del) \<and>
         endswith (out_path_of p fmt) ''.gif'' \<and>
         (\<forall>fs1. encode e fs p fmt = Inr fs1 \<longrightarrow>
            (\<exists>c. fs1 = fs(out_path_of p fmt \<mapsto> c) \<and> \<not> is_jpeg c)) \<and>
         (\<forall>fs1. encode e fs p ''JPEG'' = Inr fs1 \<longrightarrow>
            (\<exists>c. fs1 = fs(out_path_of p ''JPEG'' \<mapsto> c) \<and> is_jpeg c))"
proof (intro conjI allI impI)
  have "encode e fs p fmt = encode e fs p ''GIF''"
    using assms by (simp add: encode_gif)
  then show "convert_single_webp e fs (p, fmt, del) = convert_single_webp e fs (p, ''GIF'', del)"
    by (rule convert_same_encode)
  show "endswith (out_path_of p fmt) ''.gif''"
    using assms endswith_join [OF endswith_append]
    by (simp add: out_path_of_gif)
next
  fix fs1 assume "encode e fs p fmt = Inr fs1"
  then show "\<exists>c. fs1 = fs(out_path_of p fmt \<mapsto> c) \<and> \<not> is_jpeg c"
    using encode_written assms by blast
next
  fix fs1 assume "encode e fs p ''JPEG'' = Inr fs1"
  then show "\<exists>c. fs1 = fs(out_path_of p ''JPEG'' \<mapsto> c) \<and> is_jpeg c"
    using encode_written by blast
qed

theorem gif_unless_jpeg_witness:
  "convert_single_webp sample_env sample_fs (''photo.webp'', ''jpeg'', False) =
     convert_single_webp sample_env sample_fs (''photo.webp'', ''GIF'', False) \<and>
   endswith (out_path_of ''photo.webp'' ''jpeg'') ''.gif'' \<and>
   encode sample_env sample_fs ''photo.webp'' ''jpeg'' =
     Inr (sample_fs(''photo.gif'' \<mapsto> GIF_file (QuantizeMedianCut 256 (ConvertRGB (Raster 0)))))"
proof -
  have f: "''jpeg'' \<noteq> ''JPEG''" by simp
  have "encode sample_env sample_fs ''photo.webp'' ''jpeg'' =
     Inr (sample_fs(''photo.gif'' \<mapsto> GIF_file (QuantizeMedianCut 256 (ConvertRGB (Raster 0)))))"
    by (simp add: encode_gif gif_branch_opened [OF open_photo] gif_frames_def convert_rgb_def
        quantize_mediancut_def quantize_to_def save_def sample_env_fields path_defs)
  then show ?thesis
    using gif_unless_jpeg [OF f, of sample_env sample_fs "''photo.webp''" False] by simp
qed

section \<open>The batch: progress and the end of a batch\<close>












end
